theory Spec2Isabelle
  imports Main "HOL-Library.Multiset"
begin

section \<open>Python strings as lists of code points\<close>

text \<open>
  A Python \<open>str\<close> is a sequence of Unicode code points, so a string is a list of
  natural numbers. \<open>ascii\<close> turns a literal of the source into such a list.
\<close>

type_synonym uchar = nat
type_synonym ustr = "nat list"

definition ascii :: "string \<Rightarrow> ustr" where
  "ascii s = map of_char s"

definition quote :: uchar where
  "quote = 0x27"

definition rsquo :: uchar where
  "rsquo = 0x2019"

definition quoted :: "ustr \<Rightarrow> ustr" where
  "quoted s = [quote] @ s @ [quote]"

text \<open>
  The Unicode character tables the interpreter consults beyond ASCII are not part of the
  repository; they are a parameter, read only for code points from 128 on:
  \<open>u_alnum\<close> is \<open>str.isalnum\<close>, \<open>u_decimal\<close> is \<open>str.isdecimal\<close>, \<open>u_upper\<close> is
  \<open>str.isupper\<close> and \<open>u_lower\<close> is \<open>str.lower\<close> on a single character.
\<close>

record unicode_db =
  u_alnum :: "uchar \<Rightarrow> bool"
  u_decimal :: "uchar \<Rightarrow> bool"
  u_upper :: "uchar \<Rightarrow> bool"
  u_lower :: "uchar \<Rightarrow> ustr"

definition ascii_db :: unicode_db where
  "ascii_db = \<lparr>u_alnum = (\<lambda>c. False), u_decimal = (\<lambda>c. False),
               u_upper = (\<lambda>c. False), u_lower = (\<lambda>c. [c])\<rparr>"

text \<open>Whitespace as \<open>str.isspace\<close>, \<open>str.strip\<close>, \<open>str.split\<close> and the regex class \<open>\s\<close> see it.\<close>

definition isspace :: "uchar \<Rightarrow> bool" where
  "isspace c = ((9 \<le> c \<and> c \<le> 13) \<or> (28 \<le> c \<and> c \<le> 32) \<or> c = 0x85 \<or> c = 0xA0 \<or>
     c = 0x1680 \<or> (0x2000 \<le> c \<and> c \<le> 0x200A) \<or> c = 0x2028 \<or> c = 0x2029 \<or>
     c = 0x202F \<or> c = 0x205F \<or> c = 0x3000)"

definition is_AZ :: "uchar \<Rightarrow> bool" where
  "is_AZ c = (65 \<le> c \<and> c \<le> 90)"

definition is_az :: "uchar \<Rightarrow> bool" where
  "is_az c = (97 \<le> c \<and> c \<le> 122)"

definition is_09 :: "uchar \<Rightarrow> bool" where
  "is_09 c = (48 \<le> c \<and> c \<le> 57)"

definition isupper :: "unicode_db \<Rightarrow> uchar \<Rightarrow> bool" where
  "isupper U c = (if c < 128 then is_AZ c else u_upper U c)"

definition isdecimal :: "unicode_db \<Rightarrow> uchar \<Rightarrow> bool" where
  "isdecimal U c = (if c < 128 then is_09 c else u_decimal U c)"

text \<open>The regex class \<open>\w\<close>: alphanumeric or underscore.\<close>

definition is_word :: "unicode_db \<Rightarrow> uchar \<Rightarrow> bool" where
  "is_word U c = (if c < 128 then is_AZ c \<or> is_az c \<or> is_09 c \<or> c = 95 else u_alnum U c)"

definition lower_char :: "unicode_db \<Rightarrow> uchar \<Rightarrow> ustr" where
  "lower_char U c = (if c < 128 then (if is_AZ c then [c + 32] else [c]) else u_lower U c)"

definition lower :: "unicode_db \<Rightarrow> ustr \<Rightarrow> ustr" where
  "lower U s = concat (map (lower_char U) s)"

definition strip :: "ustr \<Rightarrow> ustr" where
  "strip s = rev (dropWhile isspace (rev (dropWhile isspace s)))"

definition startswith :: "'a list \<Rightarrow> 'a list \<Rightarrow> bool" where
  "startswith s p = (take (length p) s = p)"

definition endswith :: "'a list \<Rightarrow> 'a list \<Rightarrow> bool" where
  "endswith s p = (length p \<le> length s \<and> drop (length s - length p) s = p)"

text \<open>\<open>sub in s\<close> on strings.\<close>

primrec contains :: "'a list \<Rightarrow> 'a list \<Rightarrow> bool" where
  "contains [] sub = (sub = [])"
| "contains (c # cs) sub = (startswith (c # cs) sub \<or> contains cs sub)"

text \<open>\<open>s.split()\<close>: the maximal runs of characters that are not whitespace.\<close>

fun split_ws :: "ustr \<Rightarrow> ustr \<Rightarrow> ustr list" where
  "split_ws cur [] = (if cur = [] then [] else [cur])"
| "split_ws cur (c # cs) =
     (if isspace c then (if cur = [] then [] else [cur]) @ split_ws [] cs
      else split_ws (cur @ [c]) cs)"

definition split :: "ustr \<Rightarrow> ustr list" where
  "split s = split_ws [] s"

text \<open>\<open>sep.join(xs)\<close>.\<close>

fun join :: "'a list \<Rightarrow> 'a list list \<Rightarrow> 'a list" where
  "join sep [] = []"
| "join sep [x] = x"
| "join sep (x # y # ys) = x @ sep @ join sep (y # ys)"

definition nth_opt :: "'a list \<Rightarrow> nat \<Rightarrow> 'a option" where
  "nth_opt xs i = (if i < length xs then Some (xs ! i) else None)"

section \<open>The regular expressions of the checker\<close>

text \<open>
  \<open>\b\<close> holds between two neighbouring positions when exactly one of them is a word
  character; the position before the start and the one after the end count as not one.
\<close>

definition is_word_opt :: "unicode_db \<Rightarrow> uchar option \<Rightarrow> bool" where
  "is_word_opt U c = (case c of None \<Rightarrow> False | Some x \<Rightarrow> is_word U x)"

definition boundary :: "unicode_db \<Rightarrow> uchar option \<Rightarrow> uchar option \<Rightarrow> bool" where
  "boundary U a b = (is_word_opt U a \<noteq> is_word_opt U b)"

text \<open>
  A literal pattern character \<open>p\<close> under \<open>re.IGNORECASE\<close>, for \<open>p\<close> a lowercase ASCII
  letter or a character without case: the text character matches when it is \<open>p\<close>, its
  ASCII capital, or one of the four letters that the engine folds to an ASCII letter
  (U+0130 and U+0131 to i, U+017F to s, U+212A to k).
\<close>

definition ci_lit :: "uchar \<Rightarrow> uchar \<Rightarrow> bool" where
  "ci_lit p x = (x = p \<or> (is_az p \<and> (x + 32 = p \<or> (p = 105 \<and> (x = 0x130 \<or> x = 0x131)) \<or>
     (p = 115 \<and> x = 0x17F) \<or> (p = 107 \<and> x = 0x212A))))"

fun match_ci :: "ustr \<Rightarrow> ustr \<Rightarrow> bool" where
  "match_ci [] t = True"
| "match_ci (p # ps) [] = False"
| "match_ci (p # ps) (x # xs) = (ci_lit p x \<and> match_ci ps xs)"

definition lit_match :: "bool \<Rightarrow> ustr \<Rightarrow> ustr \<Rightarrow> bool" where
  "lit_match ic w t = (if ic then match_ci w t else startswith t w)"

text \<open>
  \<open>\b(w1|w2|...)\b\<close> tried at one position of the text: \<open>prev\<close> is the character before
  the position, \<open>t\<close> the text from the position on. The alternatives are tried in order.
\<close>

definition word_match :: "unicode_db \<Rightarrow> bool \<Rightarrow> uchar option \<Rightarrow> ustr \<Rightarrow> ustr \<Rightarrow> bool" where
  "word_match U ic prev t w = (boundary U prev (nth_opt t 0) \<and> lit_match ic w t \<and>
     boundary U (nth_opt t (length w - 1)) (nth_opt t (length w)))"

definition words_at :: "unicode_db \<Rightarrow> bool \<Rightarrow> ustr list \<Rightarrow> uchar option \<Rightarrow> ustr \<Rightarrow> ustr option" where
  "words_at U ic alts prev t = map_option (\<lambda>w. take (length w) t) (find (word_match U ic prev t) alts)"

text \<open>\<open>re.search\<close> of such a pattern: is there a position where it matches.\<close>

fun search_words :: "unicode_db \<Rightarrow> bool \<Rightarrow> ustr list \<Rightarrow> uchar option \<Rightarrow> ustr \<Rightarrow> bool" where
  "search_words U ic alts prev [] = False"
| "search_words U ic alts prev (c # cs) =
     (words_at U ic alts prev (c # cs) \<noteq> None \<or> search_words U ic alts (Some c) cs)"

text \<open>
  \<open>re.findall\<close> of such a pattern: the matches from left to right, the scan resuming
  where the last match ended. \<open>k\<close> counts the characters of the last match still to skip.
\<close>

fun findall_words :: "unicode_db \<Rightarrow> bool \<Rightarrow> ustr list \<Rightarrow> nat \<Rightarrow> uchar option \<Rightarrow> ustr \<Rightarrow> ustr list" where
  "findall_words U ic alts k prev [] = []"
| "findall_words U ic alts (Suc k) prev (c # cs) = findall_words U ic alts k (Some c) cs"
| "findall_words U ic alts 0 prev (c # cs) =
     (case words_at U ic alts prev (c # cs) of
        Some m \<Rightarrow> m # findall_words U ic alts (length m - 1) (Some c) cs
      | None \<Rightarrow> findall_words U ic alts 0 (Some c) cs)"

definition contractions :: "ustr list" where
  "contractions = map (\<lambda>s. ascii s @ [rsquo, 116])
     [''don'', ''doesn'', ''didn'', ''can'', ''won'', ''wouldn'', ''shouldn'', ''couldn'',
      ''isn'', ''aren'', ''wasn'', ''weren'', ''haven'', ''hasn'', ''hadn'', ''mustn'',
      ''mightn'', ''needn'']"

definition active_verbs :: "ustr list" where
  "active_verbs = map ascii [''work'', ''read'', ''learn'', ''report'', ''check'', ''view'',
     ''explore'', ''download'', ''submit'', ''apply'', ''contact'', ''visit'']"

definition months :: "ustr list" where
  "months = map ascii [''January'', ''February'', ''March'', ''April'', ''May'', ''June'',
     ''July'', ''August'', ''September'', ''October'', ''November'', ''December'']"

text \<open>
  \<open>\b[A-Z]{2,}\b\<close> at one position: the greedy repetition takes the longest run of capitals
  and gives characters back, down to two, until the closing \<open>\b\<close> holds.
\<close>

definition acronym_at :: "unicode_db \<Rightarrow> uchar option \<Rightarrow> ustr \<Rightarrow> ustr option" where
  "acronym_at U prev t =
     (if boundary U prev (nth_opt t 0)
      then map_option (\<lambda>k. take k t)
             (find (\<lambda>k. boundary U (nth_opt t (k - 1)) (nth_opt t k))
                   (rev [2 ..< Suc (length (takeWhile is_AZ t))]))
      else None)"

fun findall_acronyms :: "unicode_db \<Rightarrow> nat \<Rightarrow> uchar option \<Rightarrow> ustr \<Rightarrow> ustr list" where
  "findall_acronyms U k prev [] = []"
| "findall_acronyms U (Suc k) prev (c # cs) = findall_acronyms U k (Some c) cs"
| "findall_acronyms U 0 prev (c # cs) =
     (case acronym_at U prev (c # cs) of
        Some m \<Rightarrow> m # findall_acronyms U (length m - 1) (Some c) cs
      | None \<Rightarrow> findall_acronyms U 0 (Some c) cs)"

text \<open>
  \<open>\bACRONYM \([^)]+\)\<close> at one position, \<open>acr\<close> being the capitals put into the pattern:
  after the acronym, a space and an opening parenthesis, the greedy class takes the longest
  run of characters other than the closing parenthesis and backtracks down to one.
\<close>

definition expansion_at :: "unicode_db \<Rightarrow> ustr \<Rightarrow> uchar option \<Rightarrow> ustr \<Rightarrow> bool" where
  "expansion_at U acr prev t =
     (boundary U prev (nth_opt t 0) \<and> startswith t (acr @ [32, 40]) \<and>
      (let r = drop (length acr + 2) t
       in list_ex (\<lambda>k. nth_opt r k = Some 41)
            (rev [1 ..< Suc (length (takeWhile (\<lambda>c. c \<noteq> 41) r))])))"

fun search_expansion :: "unicode_db \<Rightarrow> ustr \<Rightarrow> uchar option \<Rightarrow> ustr \<Rightarrow> bool" where
  "search_expansion U acr prev [] = False"
| "search_expansion U acr prev (c # cs) =
     (expansion_at U acr prev (c # cs) \<or> search_expansion U acr (Some c) cs)"

text \<open>
  \<open>\b\d{1,2} (January|...|December) \d{4}\b\<close> at one position: two digits are tried before
  one.
\<close>

definition date_tail :: "unicode_db \<Rightarrow> ustr \<Rightarrow> ustr \<Rightarrow> bool" where
  "date_tail U r m =
     (startswith r ([32] @ m @ [32]) \<and>
      (let q = drop (length m + 2) r
       in 4 \<le> length q \<and> list_all (isdecimal U) (take 4 q) \<and>
          boundary U (nth_opt q 3) (nth_opt q 4)))"

definition date_at :: "unicode_db \<Rightarrow> uchar option \<Rightarrow> ustr \<Rightarrow> bool" where
  "date_at U prev t =
     (boundary U prev (nth_opt t 0) \<and>
      list_ex (\<lambda>k. k \<le> length t \<and> list_all (isdecimal U) (take k t) \<and>
                   list_ex (date_tail U (drop k t)) months) [2, 1])"

fun search_date :: "unicode_db \<Rightarrow> uchar option \<Rightarrow> ustr \<Rightarrow> bool" where
  "search_date U prev [] = False"
| "search_date U prev (c # cs) = (date_at U prev (c # cs) \<or> search_date U (Some c) cs)"

text \<open>\<open>\s-\s\<close>: a hyphen between two whitespace characters.\<close>

fun search_hyphen :: "ustr \<Rightarrow> bool" where
  "search_hyphen (a # b # c # cs) = ((isspace a \<and> b = 45 \<and> isspace c) \<or> search_hyphen (b # c # cs))"
| "search_hyphen cs = False"

text \<open>
  \<open>re.split(r'(?<=[.!?])\s+', text)\<close>: the text is cut at every run of whitespace that
  directly follows a full stop, an exclamation mark or a question mark; the run is dropped.
  \<open>cur\<close> is the piece read so far.
\<close>

definition is_terminal :: "uchar option \<Rightarrow> bool" where
  "is_terminal p = (p = Some 46 \<or> p = Some 33 \<or> p = Some 63)"

function split_sentences :: "uchar option \<Rightarrow> ustr \<Rightarrow> ustr \<Rightarrow> ustr list" where
  "split_sentences prev cur [] = [cur]"
| "split_sentences prev cur (c # cs) =
     (if is_terminal prev \<and> isspace c
      then cur # split_sentences (Some 32) [] (dropWhile isspace cs)
      else split_sentences (Some c) (cur @ [c]) cs)"
  by pat_completeness auto
termination
  by (relation "measure (\<lambda>(prev, cur, t). length t)")
     (auto simp: less_Suc_eq_le length_dropWhile_le)

section \<open>The rules on the Extracted Text\<close>

definition rule_please :: "unicode_db \<Rightarrow> ustr \<Rightarrow> ustr list" where
  "rule_please U t =
     (if search_words U True [ascii ''please''] None t
      then [ascii ''LANGUAGE: Found instance of the word 'please'.''] else [])"

definition msg_contraction :: "ustr \<Rightarrow> ustr" where
  "msg_contraction nc = ascii ''LANGUAGE: Found negative contraction: '' @ quoted nc"

definition neg_contr :: "unicode_db \<Rightarrow> ustr \<Rightarrow> ustr list" where
  "neg_contr U t = findall_words U True contractions 0 None t"

definition rule_contractions :: "unicode_db \<Rightarrow> ustr \<Rightarrow> ustr list" where
  "rule_contractions U t = map msg_contraction (neg_contr U t)"

definition rule_direction :: "unicode_db \<Rightarrow> ustr \<Rightarrow> ustr list" where
  "rule_direction U t = concat (map (\<lambda>word.
       if search_words U True [word] None t
       then [ascii ''LANGUAGE: Found use of the word '' @ quoted word @ ascii ''.''] else [])
     [ascii ''above'', ascii ''below''])"

definition rule_sentences :: "ustr \<Rightarrow> ustr list" where
  "rule_sentences t = concat (map (\<lambda>sentence.
       if 26 < length (split sentence)
       then [ascii ''LANGUAGE: Long sentence (>26 words): '' @ quoted (strip sentence)] else [])
     (split_sentences None [] t))"

text \<open>
  \<open>for acronym in set(acronyms)\<close>: a Python set of strings is iterated in an order that
  depends on the string hashes of the running interpreter. The order is a parameter:
  \<open>rank\<close> stands for the interpreter's hashing, and the distinct elements are visited by
  increasing rank.
\<close>

definition set_iter :: "(ustr \<Rightarrow> nat) \<Rightarrow> ustr list \<Rightarrow> ustr list" where
  "set_iter rank xs = sort_key rank (remdups xs)"

definition msg_acronym :: "ustr \<Rightarrow> ustr" where
  "msg_acronym acronym = ascii ''ACRONYM: '' @ quoted acronym @ ascii '' may not be spelled out on first use.''"

definition acronyms :: "unicode_db \<Rightarrow> ustr \<Rightarrow> ustr list" where
  "acronyms U t = findall_acronyms U 0 None t"

definition rule_acronyms :: "unicode_db \<Rightarrow> (ustr \<Rightarrow> nat) \<Rightarrow> ustr \<Rightarrow> ustr list" where
  "rule_acronyms U rank t = concat (map (\<lambda>acronym.
       if \<not> search_expansion U acronym None t then [msg_acronym acronym] else [])
     (set_iter rank (acronyms U t)))"

definition msg_date :: ustr where
  "msg_date = ascii ''STYLE: No date found in GOV.UK format (e.g., '21 September 2025').''"

definition msg_hyphen :: ustr where
  "msg_hyphen = ascii ''STYLE: Hyphen used where em dash may be appropriate.''"

definition msg_slash :: ustr where
  "msg_slash = ascii ''STYLE: Slash '/' found in text.''"

definition rule_date :: "unicode_db \<Rightarrow> ustr \<Rightarrow> ustr list" where
  "rule_date U t = (if \<not> search_date U None t then [msg_date] else [])"

definition rule_hyphen :: "ustr \<Rightarrow> ustr list" where
  "rule_hyphen t = (if search_hyphen t then [msg_hyphen] else [])"

definition rule_slash :: "ustr \<Rightarrow> ustr list" where
  "rule_slash t = (if contains t (ascii ''/'') then [msg_slash] else [])"

section \<open>The parsed markup document\<close>

text \<open>
  The parser is an external library; the checker sees its result, a tree of elements (tag
  name, attributes, children) and strings. \<open>Text\<close> is a text node (or a CDATA section).
  \<open>Special\<close> is a string that \<open>get_text\<close> leaves out and \<open>find_previous(string=True)\<close>
  still finds: a comment, a doctype, a processing instruction, or the content of a script,
  style or template element.
\<close>

datatype node = Text ustr | Special ustr | Elem string "(string \<times> ustr) list" "node list"

datatype error = IndexError | ParseError

fun preorder :: "node \<Rightarrow> node list" where
  "preorder (Text s) = [Text s]"
| "preorder (Special s) = [Special s]"
| "preorder (Elem tag attrs cs) = Elem tag attrs cs # concat (map preorder cs)"

text \<open>The nodes below a node, in document order.\<close>

fun descendants :: "node \<Rightarrow> node list" where
  "descendants (Text s) = []"
| "descendants (Special s) = []"
| "descendants (Elem tag attrs cs) = concat (map preorder cs)"

fun has_tag :: "string list \<Rightarrow> node \<Rightarrow> bool" where
  "has_tag names (Text s) = False"
| "has_tag names (Special s) = False"
| "has_tag names (Elem tag attrs cs) = (tag \<in> set names)"

definition find_all :: "string list \<Rightarrow> node \<Rightarrow> node list" where
  "find_all names n = filter (has_tag names) (descendants n)"

fun strings :: "node list \<Rightarrow> ustr list" where
  "strings [] = []"
| "strings (Text s # ns) = s # strings ns"
| "strings (Special s # ns) = strings ns"
| "strings (Elem tag attrs cs # ns) = strings ns"

text \<open>\<open>get_text(separator=sep)\<close> and \<open>get_text(strip=True)\<close>.\<close>

definition get_text :: "ustr \<Rightarrow> node \<Rightarrow> ustr" where
  "get_text sep n = join sep (strings (descendants n))"

definition get_text_strip :: "node \<Rightarrow> ustr" where
  "get_text_strip n = concat (filter (\<lambda>s. s \<noteq> []) (map strip (strings (descendants n))))"

fun get_attr :: "node \<Rightarrow> string \<Rightarrow> ustr \<Rightarrow> ustr" where
  "get_attr (Text s) k d = d"
| "get_attr (Special s) k d = d"
| "get_attr (Elem tag attrs cs) k d = (case map_of attrs k of None \<Rightarrow> d | Some v \<Rightarrow> v)"

section \<open>The rules on the markup tree\<close>

definition msg_full_stop :: "ustr \<Rightarrow> ustr" where
  "msg_full_stop bp = ascii ''BULLET: Does not end with a full stop: '' @ quoted bp"

definition msg_capital :: "ustr \<Rightarrow> ustr" where
  "msg_capital bp = ascii ''BULLET: Does not begin with a capital letter: '' @ quoted bp"

definition msg_lead_in :: ustr where
  "msg_lead_in = ascii ''BULLET: List may be missing a lead-in sentence.''"

text \<open>
  The loop over the bullet points. \<open>bp.strip()[0]\<close> raises IndexError on a bullet that is
  not empty and has nothing but whitespace; the findings collected so far are lost with it.
\<close>

fun bullets_html :: "unicode_db \<Rightarrow> ustr list \<Rightarrow> error + ustr list" where
  "bullets_html U [] = Inr []"
| "bullets_html U (bp # bps) =
     (let f1 = (if \<not> endswith (strip bp) (ascii ''.'') then [msg_full_stop (strip bp)] else [])
      in if bp \<noteq> [] \<and> strip bp = [] then Inl IndexError
         else (let f2 = (if bp \<noteq> [] \<and> \<not> isupper U (hd (strip bp))
                         then [msg_capital (strip bp)] else [])
               in case bullets_html U bps of
                    Inl e \<Rightarrow> Inl e
                  | Inr fs \<Rightarrow> Inr (f1 @ f2 @ fs)))"

definition bullet_points :: "node \<Rightarrow> ustr list" where
  "bullet_points doc = map (get_text []) (find_all [''li''] doc)"

text \<open>
  \<open>ul.find_previous(string=True)\<close> is the last string before the list in document order,
  of whatever kind, so the nodes are walked in that order with the last string seen.
\<close>

definition no_lead_in :: "ustr option \<Rightarrow> bool" where
  "no_lead_in prev = (case prev of None \<Rightarrow> True
                      | Some s \<Rightarrow> s = [] \<or> \<not> endswith (strip s) (ascii '':''))"

fun lead_in_scan :: "ustr option \<Rightarrow> node list \<Rightarrow> ustr list" where
  "lead_in_scan prev [] = []"
| "lead_in_scan prev (Text s # ns) = lead_in_scan (Some s) ns"
| "lead_in_scan prev (Special s # ns) = lead_in_scan (Some s) ns"
| "lead_in_scan prev (Elem tag attrs cs # ns) =
     (if tag = ''ul'' \<and> no_lead_in prev then [msg_lead_in] else []) @ lead_in_scan prev ns"

definition rule_lead_in :: "node \<Rightarrow> ustr list" where
  "rule_lead_in doc = lead_in_scan None (descendants doc)"

definition msg_one_word :: "ustr \<Rightarrow> ustr" where
  "msg_one_word link_text = ascii ''LINK: Link text is only one word: '' @ quoted link_text"

definition msg_not_active :: "ustr \<Rightarrow> ustr" where
  "msg_not_active link_text = ascii ''LINK: Link text may not be descriptive or active: '' @ quoted link_text"

definition has_active_verb :: "unicode_db \<Rightarrow> ustr \<Rightarrow> bool" where
  "has_active_verb U t = search_words U True active_verbs None t"

definition link_findings :: "unicode_db \<Rightarrow> node \<Rightarrow> ustr list" where
  "link_findings U a =
     (let link_text = strip (get_text [] a)
      in (if length (split link_text) = 1 then [msg_one_word link_text] else []) @
         (if \<not> has_active_verb U link_text then [msg_not_active link_text] else []))"

definition rule_links :: "unicode_db \<Rightarrow> node \<Rightarrow> ustr list" where
  "rule_links U doc = concat (map (link_findings U) (find_all [''a''] doc))"

definition msg_no_alt :: ustr where
  "msg_no_alt = ascii ''IMAGE: Image found without alt text.''"

definition msg_alt_not_described :: "ustr \<Rightarrow> ustr" where
  "msg_alt_not_described alt_text = ascii ''IMAGE: Alt text not described in body: '' @ quoted alt_text"

definition image_findings :: "ustr \<Rightarrow> node \<Rightarrow> ustr list" where
  "image_findings t img =
     (let alt_text = get_attr img ''alt'' []
      in (if alt_text = [] then [msg_no_alt] else []) @
         (if alt_text \<noteq> [] \<and> \<not> contains t alt_text then [msg_alt_not_described alt_text] else []))"

definition rule_images :: "node \<Rightarrow> ustr \<Rightarrow> ustr list" where
  "rule_images doc t = concat (map (image_findings t) (find_all [''img''] doc))"

definition msg_empty_cell :: ustr where
  "msg_empty_cell = ascii ''TABLE: Empty table cell found. Should be marked as 'no data' or 'not applicable'.''"

definition rule_cells :: "node \<Rightarrow> ustr list" where
  "rule_cells doc = concat (map (\<lambda>td. if get_text_strip td = [] then [msg_empty_cell] else [])
     (find_all [''td''] doc))"

definition msg_format :: "ustr \<Rightarrow> ustr" where
  "msg_format s = ascii ''FORMAT: Use of bold/italic text: '' @ quoted s"

definition rule_emphasis :: "node \<Rightarrow> ustr list" where
  "rule_emphasis doc = map (\<lambda>tag. msg_format (get_text_strip tag))
     (find_all [''b'', ''strong'', ''i'', ''em''] doc)"

definition msg_table_link :: ustr where
  "msg_table_link = ascii ''STYLE: Link found inside a table.''"

definition rule_table_links :: "node \<Rightarrow> ustr list" where
  "rule_table_links doc = concat (map (\<lambda>table. if find_all [''a''] table \<noteq> [] then [msg_table_link] else [])
     (find_all [''table''] doc))"

definition msg_title :: "ustr \<Rightarrow> ustr" where
  "msg_title s = ascii ''STYLE: Title may not use active language: '' @ quoted s"

definition rule_titles :: "unicode_db \<Rightarrow> node \<Rightarrow> ustr list" where
  "rule_titles U doc = concat (map (\<lambda>title.
       if \<not> has_active_verb U (get_text [] title) then [msg_title (get_text_strip title)] else [])
     (find_all [''h1'', ''h2'', ''h3''] doc))"

section \<open>The evaluation of a markup document\<close>

text \<open>
  The state of one evaluation: the parsed tree, the Extracted Text and the finding list.
  Every statement of \<open>check_html\<close> reads the first two and appends to the third.
\<close>

record html_state =
  soup :: node
  extracted :: ustr
  findings :: "ustr list"

definition append_findings :: "ustr list \<Rightarrow> html_state \<Rightarrow> html_state" where
  "append_findings fs s = s\<lparr>findings := findings s @ fs\<rparr>"

definition text_rules_1 :: "unicode_db \<Rightarrow> ustr \<Rightarrow> ustr list" where
  "text_rules_1 U t = rule_please U t @ rule_contractions U t @ rule_direction U t @ rule_sentences t"

definition text_rules_2 :: "unicode_db \<Rightarrow> ustr \<Rightarrow> ustr list" where
  "text_rules_2 U t = rule_date U t @ rule_hyphen t @ rule_slash t"

definition eval_html :: "unicode_db \<Rightarrow> (ustr \<Rightarrow> nat) \<Rightarrow> html_state \<Rightarrow> error + html_state" where
  "eval_html U rank s0 =
     (case bullets_html U (bullet_points (soup s0)) of
        Inl e \<Rightarrow> Inl e
      | Inr bs \<Rightarrow>
         (let s1 = append_findings bs s0;
              s2 = append_findings (rule_lead_in (soup s1)) s1;
              s3 = append_findings (text_rules_1 U (extracted s2)) s2;
              s4 = append_findings (rule_links U (soup s3)) s3;
              s5 = append_findings (rule_images (soup s4) (extracted s4)) s4;
              s6 = append_findings (rule_cells (soup s5)) s5;
              s7 = append_findings (rule_emphasis (soup s6)) s6;
              s8 = append_findings (rule_acronyms U rank (extracted s7)) s7;
              s9 = append_findings (text_rules_2 U (extracted s8)) s8;
              s10 = append_findings (rule_table_links (soup s9)) s9;
              s11 = append_findings (rule_titles U (soup s10)) s10
          in Inr s11))"

definition init_html :: "node \<Rightarrow> html_state" where
  "init_html doc = \<lparr>soup = doc, extracted = get_text [10] doc, findings = []\<rparr>"

definition check_html :: "unicode_db \<Rightarrow> (ustr \<Rightarrow> nat) \<Rightarrow> node \<Rightarrow> error + ustr list" where
  "check_html U rank doc = map_sum id findings (eval_html U rank (init_html doc))"

section \<open>The evaluation of a word-processor document\<close>

record run =
  bold :: "bool option"
  italic :: "bool option"
  run_text :: ustr

record docx_paragraph =
  style_name :: ustr
  para_text :: ustr
  runs :: "run list"

record docx_state =
  paragraphs :: "docx_paragraph list"
  doc_text :: ustr
  doc_findings :: "ustr list"

definition append_doc_findings :: "ustr list \<Rightarrow> docx_state \<Rightarrow> docx_state" where
  "append_doc_findings fs s = s\<lparr>doc_findings := doc_findings s @ fs\<rparr>"

definition bullet_docx :: "unicode_db \<Rightarrow> docx_paragraph \<Rightarrow> ustr list" where
  "bullet_docx U para =
     (if startswith (style_name para) (ascii ''List'')
      then (let bp = strip (para_text para)
            in (if \<not> endswith bp (ascii ''.'') then [msg_full_stop bp] else []) @
               (if bp \<noteq> [] \<and> \<not> isupper U (hd bp) then [msg_capital bp] else []))
      else [])"

definition rule_bullets_docx :: "unicode_db \<Rightarrow> docx_paragraph list \<Rightarrow> ustr list" where
  "rule_bullets_docx U ps = concat (map (bullet_docx U) ps)"

definition rule_runs :: "docx_paragraph list \<Rightarrow> ustr list" where
  "rule_runs ps = concat (map (\<lambda>para. concat (map (\<lambda>r.
       if bold r = Some True \<or> italic r = Some True then [msg_format (strip (run_text r))] else [])
     (runs para))) ps)"

definition eval_docx :: "unicode_db \<Rightarrow> (ustr \<Rightarrow> nat) \<Rightarrow> docx_state \<Rightarrow> docx_state" where
  "eval_docx U rank s0 =
     (let s1 = append_doc_findings (rule_bullets_docx U (paragraphs s0)) s0;
          s2 = append_doc_findings (text_rules_1 U (doc_text s1)) s1;
          s3 = append_doc_findings (rule_runs (paragraphs s2)) s2;
          s4 = append_doc_findings (rule_acronyms U rank (doc_text s3)) s3;
          s5 = append_doc_findings (text_rules_2 U (doc_text s4)) s4
      in s5)"

definition init_docx :: "docx_paragraph list \<Rightarrow> docx_state" where
  "init_docx ps = \<lparr>paragraphs = ps, doc_text = join [10] (map para_text ps), doc_findings = []\<rparr>"

definition check_docx :: "unicode_db \<Rightarrow> (ustr \<Rightarrow> nat) \<Rightarrow> docx_paragraph list \<Rightarrow> ustr list" where
  "check_docx U rank ps = doc_findings (eval_docx U rank (init_docx ps))"

section \<open>The command-line entry point\<close>

text \<open>
  \<open>os.path.splitext\<close> on a POSIX path: the extension starts at the last dot of the last
  path component, unless that component has nothing but dots before it (the loop of the
  library looks for a character other than a dot between the separator and that dot).
\<close>

definition rfind :: "ustr \<Rightarrow> uchar \<Rightarrow> int" where
  "rfind s c = (case filter (\<lambda>i. s ! i = c) (rev [0 ..< length s]) of
                  [] \<Rightarrow> - 1 | i # is \<Rightarrow> int i)"

definition splitext :: "ustr \<Rightarrow> ustr \<times> ustr" where
  "splitext p =
     (let sepIndex = rfind p 47; dotIndex = rfind p 46
      in if dotIndex > sepIndex \<and>
            list_ex (\<lambda>c. c \<noteq> 46) (take (nat dotIndex - nat (sepIndex + 1)) (drop (nat (sepIndex + 1)) p))
         then (take (nat dotIndex) p, drop (nat dotIndex) p)
         else (p, []))"

fun str_nat :: "nat \<Rightarrow> ustr" where
  "str_nat n = (if n < 10 then [48 + n] else str_nat (n div 10) @ [48 + n mod 10])"

definition msg_usage :: ustr where
  "msg_usage = ascii ''Usage: python govuk_checker.py <file>''"

definition msg_not_found :: ustr where
  "msg_not_found = ascii ''File not found.''"

definition msg_unsupported :: ustr where
  "msg_unsupported = ascii ''Unsupported file type. Use .htm, .html, or .docx''"

definition report :: "ustr list \<Rightarrow> ustr list" where
  "report fs = [[10] @ ascii ''--- GOV.UK Style & Content Findings ---'' @ [10]] @ fs @
               [[10] @ ascii ''Total findings: '' @ str_nat (length fs)]"

text \<open>
  \<open>main\<close> returns what it prints, one string for each call of \<open>print\<close>, or the exception
  that ends it. The file system and the two parsers are parameters: \<open>isfile\<close> is
  \<open>os.path.isfile\<close>, \<open>load_html\<close> and \<open>load_docx\<close> read and parse the file at a path.
\<close>

definition main :: "unicode_db \<Rightarrow> (ustr \<Rightarrow> nat) \<Rightarrow> (ustr \<Rightarrow> bool) \<Rightarrow> (ustr \<Rightarrow> error + node) \<Rightarrow>
    (ustr \<Rightarrow> error + docx_paragraph list) \<Rightarrow> ustr list \<Rightarrow> error + ustr list" where
  "main U rank isfile load_html load_docx argv =
     (if length argv \<noteq> 2 then Inr [msg_usage]
      else (let file_path = argv ! 1
            in if \<not> isfile file_path then Inr [msg_not_found]
               else (let ext = lower U (snd (splitext file_path))
                     in if ext \<in> set [ascii ''.htm'', ascii ''.html'']
                        then (case load_html file_path of
                                Inl e \<Rightarrow> Inl e
                              | Inr doc \<Rightarrow> (case check_html U rank doc of
                                             Inl e \<Rightarrow> Inl e
                                           | Inr fs \<Rightarrow> Inr (report fs)))
                        else if ext = ascii ''.docx''
                        then (case load_docx file_path of
                                Inl e \<Rightarrow> Inl e
                              | Inr ps \<Rightarrow> Inr (report (check_docx U rank ps)))
                        else Inr [msg_unsupported])))"

section \<open>Reading a finding list\<close>

text \<open>The category of a finding is what stands before its first colon.\<close>

definition category :: "ustr \<Rightarrow> ustr" where
  "category f = takeWhile (\<lambda>c. c \<noteq> 58) f"

section \<open>Example inputs\<close>

definition rank0 :: "ustr \<Rightarrow> nat" where
  "rank0 s = 0"

definition doc_blank_bullet :: node where
  "doc_blank_bullet = Elem ''[document]'' [] [Elem ''ul'' [] [Elem ''li'' [] [Text (ascii '' '')]]]"

definition doc_images :: node where
  "doc_images = Elem ''[document]'' [] [Elem ''body'' []
     [Elem ''img'' [(''alt'', [])] [],
      Elem ''img'' [(''alt'', ascii ''Annual report'')] [],
      Elem ''img'' [(''alt'', ascii ''Q3 chart'')] [],
      Elem ''p'' [] [Text (ascii ''Annual report'')]]]"

definition doc_hyphen :: node where
  "doc_hyphen = Elem ''[document]'' [] [Elem ''p'' [] [Text (ascii ''a'')],
     Elem ''p'' [] [Text (ascii ''-'')], Elem ''p'' [] [Text (ascii ''b'')]]"

definition any_file :: "ustr \<Rightarrow> bool" where
  "any_file p = True"

definition no_file :: "ustr \<Rightarrow> bool" where
  "no_file p = False"

definition no_html :: "ustr \<Rightarrow> error + node" where
  "no_html p = Inl ParseError"

definition no_docx :: "ustr \<Rightarrow> error + docx_paragraph list" where
  "no_docx p = Inl ParseError"



definition rank_ab_last :: "ustr \<Rightarrow> nat" where
  "rank_ab_last s = (if s = ascii ''AB'' then 1 else 0)"

definition doc_two_acronyms :: "docx_paragraph list" where
  "doc_two_acronyms = [\<lparr>style_name = ascii ''Normal'', para_text = ascii ''AB CD'', runs = []\<rparr>]"

definition page_two_acronyms :: node where
  "page_two_acronyms = Elem ''[document]'' [] [Elem ''p'' [] [Text (ascii ''AB CD'')]]"





section \<open>Strings\<close>

lemma all_dropWhile_iff: "(\<forall>x\<in>set (dropWhile P s). P x) \<longleftrightarrow> (\<forall>x\<in>set s. P x)"
proof
  assume a: "\<forall>x\<in>set (dropWhile P s). P x"
  have "dropWhile P s = []"
  proof (rule ccontr)
    assume n: "dropWhile P s \<noteq> []"
    then have "\<not> P (hd (dropWhile P s))" by (rule hd_dropWhile)
    moreover from n have "hd (dropWhile P s) \<in> set (dropWhile P s)" by simp
    ultimately show False using a by blast
  qed
  then show "\<forall>x\<in>set s. P x" by (simp add: dropWhile_eq_Nil_conv)
next
  assume "\<forall>x\<in>set s. P x"
  then show "\<forall>x\<in>set (dropWhile P s). P x" by (meson set_dropWhileD)
qed

lemma strip_Nil_iff: "strip s = [] \<longleftrightarrow> list_all isspace s"
  by (simp add: strip_def dropWhile_eq_Nil_conv all_dropWhile_iff list_all_iff)

lemma contains_iff: "contains t s \<longleftrightarrow> (\<exists>pre post. t = pre @ s @ post)"
proof (induction t)
  case Nil
  then show ?case by auto
next
  case (Cons c cs)
  show ?case
  proof
    assume "contains (c # cs) s"
    then consider "startswith (c # cs) s" | "contains cs s" by auto
    then show "\<exists>pre post. c # cs = pre @ s @ post"
    proof cases
      case 1
      then have "c # cs = [] @ s @ drop (length s) (c # cs)"
        unfolding startswith_def by (metis append_Nil append_take_drop_id)
      then show ?thesis by blast
    next
      case 2
      with Cons.IH obtain pre post where "cs = pre @ s @ post" by blast
      then have "c # cs = (c # pre) @ s @ post" by simp
      then show ?thesis by blast
    qed
  next
    assume "\<exists>pre post. c # cs = pre @ s @ post"
    then obtain pre post where e: "c # cs = pre @ s @ post" by blast
    show "contains (c # cs) s"
    proof (cases pre)
      case Nil
      with e have "startswith (c # cs) s" by (simp add: startswith_def)
      then show ?thesis by simp
    next
      case (Cons p pre')
      with e have "cs = pre' @ s @ post" by simp
      with Cons.IH have "contains cs s" by blast
      then show ?thesis by simp
    qed
  qed
qed

section \<open>The finding list as the concatenation of the rules\<close>

lemma check_html_unfold:
  "check_html U rank doc =
     (case bullets_html U (bullet_points doc) of
        Inl e \<Rightarrow> Inl e
      | Inr bs \<Rightarrow> Inr (bs @ rule_lead_in doc @ text_rules_1 U (get_text [10] doc) @ rule_links U doc @
          rule_images doc (get_text [10] doc) @ rule_cells doc @ rule_emphasis doc @
          rule_acronyms U rank (get_text [10] doc) @ text_rules_2 U (get_text [10] doc) @
          rule_table_links doc @ rule_titles U doc))"
  by (simp add: check_html_def eval_html_def init_html_def append_findings_def Let_def split: sum.splits)

lemma check_docx_unfold:
  "check_docx U rank ps =
     rule_bullets_docx U ps @ text_rules_1 U (join [10] (map para_text ps)) @ rule_runs ps @
     rule_acronyms U rank (join [10] (map para_text ps)) @ text_rules_2 U (join [10] (map para_text ps))"
  by (simp add: check_docx_def eval_docx_def init_docx_def append_doc_findings_def Let_def)

lemma bullets_html_error_iff:
  "bullets_html U bps = Inl e \<longleftrightarrow> e = IndexError \<and> (\<exists>bp\<in>set bps. bp \<noteq> [] \<and> strip bp = [])"
  by (induction bps) (auto simp: Let_def split: sum.splits)

section \<open>A bullet of whitespace\<close>

text \<open>
  C5. \<open>check_html\<close> is not total: on a document with a list item whose text is not empty
  and consists of whitespace only, the capitalisation check indexes the empty stripped
  string, and the evaluation ends with IndexError instead of a finding list.
\<close>

theorem whitespace_bullet_raises:
  assumes "li \<in> set (find_all [''li''] doc)"
    and "get_text [] li \<noteq> []"
    and "list_all isspace (get_text [] li)"
  shows "check_html U rank doc = Inl IndexError"
proof -
  from assms have "\<exists>bp\<in>set (bullet_points doc). bp \<noteq> [] \<and> strip bp = []"
    by (auto simp: bullet_points_def strip_Nil_iff)
  then have "bullets_html U (bullet_points doc) = Inl IndexError"
    by (simp add: bullets_html_error_iff)
  then show ?thesis
    by (simp add: check_html_def eval_html_def init_html_def)
qed

theorem whitespace_bullet_raises_witness:
  "Elem ''li'' [] [Text (ascii '' '')] \<in> set (find_all [''li''] doc_blank_bullet) \<and>
   get_text [] (Elem ''li'' [] [Text (ascii '' '')]) \<noteq> [] \<and>
   list_all isspace (get_text [] (Elem ''li'' [] [Text (ascii '' '')])) \<and>
   check_html ascii_db rank0 doc_blank_bullet = Inl IndexError"
proof -
  have a: "Elem ''li'' [] [Text (ascii '' '')] \<in> set (find_all [''li''] doc_blank_bullet)"
    by (simp add: find_all_def doc_blank_bullet_def)
  have b: "get_text [] (Elem ''li'' [] [Text (ascii '' '')]) \<noteq> []"
    by (simp add: get_text_def ascii_def)
  have c: "list_all isspace (get_text [] (Elem ''li'' [] [Text (ascii '' '')]))"
    by (simp add: get_text_def ascii_def isspace_def)
  from whitespace_bullet_raises [OF a b c] a b c show ?thesis by blast
qed

lemmas msg_defs = msg_contraction_def msg_acronym_def msg_date_def msg_hyphen_def msg_slash_def
  msg_full_stop_def msg_capital_def msg_lead_in_def msg_one_word_def msg_not_active_def
  msg_no_alt_def msg_alt_not_described_def msg_empty_cell_def msg_format_def msg_table_link_def
  msg_title_def

lemma bullets_html_category:
  "bullets_html U bps = Inr fs \<Longrightarrow> f \<in> set fs \<Longrightarrow> category f = ascii ''BULLET''"
  by (induction bps arbitrary: fs)
     (auto simp: Let_def category_def ascii_def msg_defs split: sum.splits if_splits)

lemma lead_in_scan_category: "f \<in> set (lead_in_scan prev ns) \<Longrightarrow> category f = ascii ''BULLET''"
  by (induction prev ns rule: lead_in_scan.induct)
     (auto simp: category_def ascii_def msg_defs split: if_splits)

lemma rule_lead_in_category: "f \<in> set (rule_lead_in doc) \<Longrightarrow> category f = ascii ''BULLET''"
  by (simp add: rule_lead_in_def lead_in_scan_category)

lemma text_rules_1_category: "f \<in> set (text_rules_1 U t) \<Longrightarrow> category f = ascii ''LANGUAGE''"
  by (auto simp: text_rules_1_def rule_please_def rule_contractions_def rule_direction_def
        rule_sentences_def category_def ascii_def msg_defs split: if_splits)

lemma rule_links_category: "f \<in> set (rule_links U doc) \<Longrightarrow> category f = ascii ''LINK''"
  by (auto simp: rule_links_def link_findings_def Let_def category_def ascii_def msg_defs split: if_splits)

lemma rule_images_category: "f \<in> set (rule_images doc t) \<Longrightarrow> category f = ascii ''IMAGE''"
  by (auto simp: rule_images_def image_findings_def Let_def category_def ascii_def msg_defs split: if_splits)

lemma rule_cells_category: "f \<in> set (rule_cells doc) \<Longrightarrow> category f = ascii ''TABLE''"
  by (auto simp: rule_cells_def category_def ascii_def msg_defs split: if_splits)

lemma rule_emphasis_category: "f \<in> set (rule_emphasis doc) \<Longrightarrow> category f = ascii ''FORMAT''"
  by (auto simp: rule_emphasis_def category_def ascii_def msg_defs)

lemma rule_acronyms_category: "f \<in> set (rule_acronyms U rank t) \<Longrightarrow> category f = ascii ''ACRONYM''"
  by (auto simp: rule_acronyms_def category_def ascii_def msg_defs split: if_splits)

lemma text_rules_2_category: "f \<in> set (text_rules_2 U t) \<Longrightarrow> category f = ascii ''STYLE''"
  by (auto simp: text_rules_2_def rule_date_def rule_hyphen_def rule_slash_def category_def ascii_def msg_defs split: if_splits)

lemma rule_table_links_category: "f \<in> set (rule_table_links doc) \<Longrightarrow> category f = ascii ''STYLE''"
  by (auto simp: rule_table_links_def category_def ascii_def msg_defs split: if_splits)

lemma rule_titles_category: "f \<in> set (rule_titles U doc) \<Longrightarrow> category f = ascii ''STYLE''"
  by (auto simp: rule_titles_def category_def ascii_def msg_defs split: if_splits)

lemma rule_bullets_docx_category: "f \<in> set (rule_bullets_docx U ps) \<Longrightarrow> category f = ascii ''BULLET''"
  by (auto simp: rule_bullets_docx_def bullet_docx_def Let_def category_def ascii_def msg_defs split: if_splits)

lemma rule_runs_category: "f \<in> set (rule_runs ps) \<Longrightarrow> category f = ascii ''FORMAT''"
  by (auto simp: rule_runs_def category_def ascii_def msg_defs split: if_splits)

lemma filter_category_other:
  "(\<And>f. f \<in> set xs \<Longrightarrow> category f = c') \<Longrightarrow> c' \<noteq> c \<Longrightarrow> filter (\<lambda>f. category f = c) xs = []"
  by (auto simp: filter_empty_conv)

lemma filter_category_same:
  "(\<And>f. f \<in> set xs \<Longrightarrow> category f = c) \<Longrightarrow> filter (\<lambda>f. category f = c) xs = xs"
  by (auto simp: filter_id_conv)

lemma count_list_other:
  "(\<And>f. f \<in> set xs \<Longrightarrow> category f = c') \<Longrightarrow> category m \<noteq> c' \<Longrightarrow> count_list xs m = 0"
  by (auto simp: count_list_0_iff)

lemma ascii_eq_iff: "ascii a = ascii b \<longleftrightarrow> a = b"
  by (simp add: ascii_def inj_map_eq_map [OF inj_of_char])

lemmas cat_other =
  filter_category_other [OF rule_lead_in_category] filter_category_other [OF text_rules_1_category]
  filter_category_other [OF rule_links_category] filter_category_other [OF rule_images_category]
  filter_category_other [OF rule_cells_category] filter_category_other [OF rule_emphasis_category]
  filter_category_other [OF rule_acronyms_category] filter_category_other [OF text_rules_2_category]
  filter_category_other [OF rule_table_links_category] filter_category_other [OF rule_titles_category]
  filter_category_other [OF rule_bullets_docx_category] filter_category_other [OF rule_runs_category]

lemmas cat_same =
  filter_category_same [OF rule_lead_in_category] filter_category_same [OF text_rules_1_category]
  filter_category_same [OF rule_links_category] filter_category_same [OF rule_images_category]
  filter_category_same [OF rule_cells_category] filter_category_same [OF rule_emphasis_category]
  filter_category_same [OF rule_acronyms_category] filter_category_same [OF text_rules_2_category]
  filter_category_same [OF rule_table_links_category] filter_category_same [OF rule_titles_category]
  filter_category_same [OF rule_bullets_docx_category] filter_category_same [OF rule_runs_category]

lemma html_findings_of_category:
  assumes "check_html U rank doc = Inr fs"
  shows "filter (\<lambda>f. category f = ascii ''LANGUAGE'') fs = text_rules_1 U (get_text [10] doc)"
    and "filter (\<lambda>f. category f = ascii ''LINK'') fs = rule_links U doc"
    and "filter (\<lambda>f. category f = ascii ''IMAGE'') fs = rule_images doc (get_text [10] doc)"
    and "filter (\<lambda>f. category f = ascii ''ACRONYM'') fs = rule_acronyms U rank (get_text [10] doc)"
    and "filter (\<lambda>f. category f = ascii ''STYLE'') fs =
           text_rules_2 U (get_text [10] doc) @ rule_table_links doc @ rule_titles U doc"
proof -
  from assms obtain bs where b: "bullets_html U (bullet_points doc) = Inr bs"
    and fs: "fs = bs @ rule_lead_in doc @ text_rules_1 U (get_text [10] doc) @ rule_links U doc @
          rule_images doc (get_text [10] doc) @ rule_cells doc @ rule_emphasis doc @
          rule_acronyms U rank (get_text [10] doc) @ text_rules_2 U (get_text [10] doc) @
          rule_table_links doc @ rule_titles U doc"
    by (auto simp: check_html_unfold split: sum.splits)
  note bo = filter_category_other [OF bullets_html_category [OF b]]
  show "filter (\<lambda>f. category f = ascii ''LANGUAGE'') fs = text_rules_1 U (get_text [10] doc)"
    unfolding fs by (simp add: bo cat_other cat_same ascii_eq_iff)
  show "filter (\<lambda>f. category f = ascii ''LINK'') fs = rule_links U doc"
    unfolding fs by (simp add: bo cat_other cat_same ascii_eq_iff)
  show "filter (\<lambda>f. category f = ascii ''IMAGE'') fs = rule_images doc (get_text [10] doc)"
    unfolding fs by (simp add: bo cat_other cat_same ascii_eq_iff)
  show "filter (\<lambda>f. category f = ascii ''ACRONYM'') fs = rule_acronyms U rank (get_text [10] doc)"
    unfolding fs by (simp add: bo cat_other cat_same ascii_eq_iff)
  show "filter (\<lambda>f. category f = ascii ''STYLE'') fs =
           text_rules_2 U (get_text [10] doc) @ rule_table_links doc @ rule_titles U doc"
    unfolding fs by (simp add: bo cat_other cat_same ascii_eq_iff)
qed

lemma docx_findings_of_category:
  shows "filter (\<lambda>f. category f = ascii ''LANGUAGE'') (check_docx U rank ps) =
           text_rules_1 U (join [10] (map para_text ps))"
    and "filter (\<lambda>f. category f = ascii ''ACRONYM'') (check_docx U rank ps) =
           rule_acronyms U rank (join [10] (map para_text ps))"
    and "filter (\<lambda>f. category f = ascii ''STYLE'') (check_docx U rank ps) =
           text_rules_2 U (join [10] (map para_text ps))"
  by (simp_all add: check_docx_unfold cat_other cat_same ascii_eq_iff)

lemma image_findings_cases:
  "image_findings t (Elem tag attrs cs) =
     (case map_of attrs ''alt'' of
        None \<Rightarrow> [msg_no_alt]
      | Some alt \<Rightarrow> if alt = [] then [msg_no_alt]
                    else if \<exists>pre post. t = pre @ alt @ post then []
                    else [msg_alt_not_described alt])"
  by (simp add: image_findings_def contains_iff Let_def split: option.splits)

section \<open>Image alt text\<close>

text \<open>
  C6. The IMAGE findings of an evaluation are, in document order, the findings of the image
  elements. An image whose alt attribute is absent or empty gives exactly the one finding
  "without alt text"; one whose alt text is not empty and occurs in the Extracted Text
  gives none; one whose alt text is not empty and does not occur there gives exactly the
  one finding "not described".
\<close>

theorem image_alt_text:
  assumes "check_html U rank doc = Inr fs"
  shows "filter (\<lambda>f. category f = ascii ''IMAGE'') fs =
           concat (map (image_findings (get_text [10] doc)) (find_all [''img''] doc)) \<and>
         (\<forall>tag attrs cs. Elem tag attrs cs \<in> set (find_all [''img''] doc) \<longrightarrow>
            image_findings (get_text [10] doc) (Elem tag attrs cs) =
              (case map_of attrs ''alt'' of
                 None \<Rightarrow> [msg_no_alt]
               | Some alt \<Rightarrow> if alt = [] then [msg_no_alt]
                             else if \<exists>pre post. get_text [10] doc = pre @ alt @ post then []
                             else [msg_alt_not_described alt]))"
  using html_findings_of_category(3) [OF assms]
  by (simp add: rule_images_def image_findings_cases)

lemmas string_defs = ascii_def quoted_def quote_def rsquo_def strip_def startswith_def endswith_def
  split_def nth_opt_def isspace_def is_AZ_def is_az_def is_09_def isupper_def isdecimal_def is_word_def
  is_word_opt_def boundary_def ci_lit_def lit_match_def word_match_def words_at_def
  is_terminal_def

lemmas regex_defs = acronym_at_def expansion_at_def date_tail_def date_at_def contractions_def
  active_verbs_def months_def

lemmas rule_defs = rule_please_def neg_contr_def rule_contractions_def rule_direction_def
  rule_sentences_def set_iter_def acronyms_def rule_acronyms_def rule_date_def rule_hyphen_def
  rule_slash_def find_all_def get_text_def get_text_strip_def bullet_points_def no_lead_in_def
  rule_lead_in_def has_active_verb_def link_findings_def rule_links_def image_findings_def
  rule_images_def rule_cells_def rule_emphasis_def rule_table_links_def rule_titles_def
  text_rules_1_def text_rules_2_def

lemma doc_images_text: "get_text [10] doc_images = ascii ''Annual report''"
  by (simp add: doc_images_def get_text_def)

lemma doc_images_eval:
  "check_html ascii_db rank0 doc_images =
     Inr [msg_no_alt, msg_alt_not_described (ascii ''Q3 chart''), msg_date]"
  by (simp add: check_html_unfold doc_images_def rule_defs regex_defs string_defs ascii_db_def rank0_def Let_def)

theorem image_alt_text_witness:
  "check_html ascii_db rank0 doc_images =
     Inr [msg_no_alt, msg_alt_not_described (ascii ''Q3 chart''), msg_date] \<and>
   filter (\<lambda>f. category f = ascii ''IMAGE'')
     [msg_no_alt, msg_alt_not_described (ascii ''Q3 chart''), msg_date] =
     [msg_no_alt, msg_alt_not_described (ascii ''Q3 chart'')]"
proof -
  have imgs: "concat (map (image_findings (get_text [10] doc_images)) (find_all [''img''] doc_images)) =
      [msg_no_alt, msg_alt_not_described (ascii ''Q3 chart'')]"
    unfolding doc_images_text
    by (simp add: doc_images_def find_all_def image_findings_def contains_def startswith_def ascii_def Let_def)
  from image_alt_text [OF doc_images_eval] imgs doc_images_eval show ?thesis by simp
qed

section \<open>Hyphens\<close>

lemma search_hyphen_iff:
  "search_hyphen t \<longleftrightarrow> (\<exists>pre a c post. t = pre @ [a, 45, c] @ post \<and> isspace a \<and> isspace c)"
proof (induction t rule: search_hyphen.induct)
  case (1 a b c cs)
  show ?case
  proof
    assume "search_hyphen (a # b # c # cs)"
    then consider "isspace a \<and> b = 45 \<and> isspace c" | "search_hyphen (b # c # cs)" by auto
    then show "\<exists>pre x y post. a # b # c # cs = pre @ [x, 45, y] @ post \<and> isspace x \<and> isspace y"
    proof cases
      case 1
      then have "a # b # c # cs = [] @ [a, 45, c] @ cs" by simp
      with 1 show ?thesis by blast
    next
      case 2
      with "1.IH" obtain pre x y post where "b # c # cs = pre @ [x, 45, y] @ post" "isspace x" "isspace y" by blast
      then have "a # b # c # cs = (a # pre) @ [x, 45, y] @ post" by simp
      with \<open>isspace x\<close> \<open>isspace y\<close> show ?thesis by blast
    qed
  next
    assume "\<exists>pre x y post. a # b # c # cs = pre @ [x, 45, y] @ post \<and> isspace x \<and> isspace y"
    then obtain pre x y post where e: "a # b # c # cs = pre @ [x, 45, y] @ post" and s: "isspace x" "isspace y" by blast
    show "search_hyphen (a # b # c # cs)"
    proof (cases pre)
      case Nil
      with e s show ?thesis by simp
    next
      case (Cons p pre')
      with e have "b # c # cs = pre' @ [x, 45, y] @ post" by simp
      with s have "\<exists>pre a c' post. b # c # cs = pre @ [a, 45, c'] @ post \<and> isspace a \<and> isspace c'" by blast
      with "1.IH" have "search_hyphen (b # c # cs)" by simp
      then show ?thesis by simp
    qed
  qed
qed (auto simp: append_eq_Cons_conv)

lemma count_list_filter: "count_list (filter P xs) m = (if P m then count_list xs m else 0)"
  by (induction xs) auto

lemma count_hyphen_text_rules_2:
  "count_list (text_rules_2 U t) msg_hyphen = (if search_hyphen t then 1 else 0)"
  by (simp add: text_rules_2_def rule_date_def rule_hyphen_def rule_slash_def msg_date_def
        msg_hyphen_def msg_slash_def ascii_eq_iff)

lemma count_hyphen_table_links: "count_list (rule_table_links doc) msg_hyphen = 0"
  by (auto simp: count_list_0_iff rule_table_links_def msg_table_link_def msg_hyphen_def ascii_eq_iff
           split: if_splits)

lemma count_hyphen_titles: "count_list (rule_titles U doc) msg_hyphen = 0"
  by (auto simp: count_list_0_iff rule_titles_def msg_title_def msg_hyphen_def ascii_def
           split: if_splits)

text \<open>
  C4. The STYLE hyphen finding appears at most once, and it appears exactly when the
  Extracted Text has a hyphen between two whitespace characters, whichever they are: a
  space, a tab, a line break or any other Unicode whitespace.
\<close>

theorem hyphen_rule:
  "(check_html U rank doc = Inr fs \<longrightarrow>
      count_list fs msg_hyphen =
        (if \<exists>pre a c post. get_text [10] doc = pre @ [a, 45, c] @ post \<and> isspace a \<and> isspace c
         then 1 else 0)) \<and>
   count_list (check_docx U rank ps) msg_hyphen =
     (if \<exists>pre a c post. join [10] (map para_text ps) = pre @ [a, 45, c] @ post \<and> isspace a \<and> isspace c
      then 1 else 0)"
proof (intro conjI impI)
  assume a: "check_html U rank doc = Inr fs"
  have "count_list fs msg_hyphen = count_list (filter (\<lambda>f. category f = ascii ''STYLE'') fs) msg_hyphen"
    by (simp add: count_list_filter category_def msg_hyphen_def ascii_def)
  also have "\<dots> = (if search_hyphen (get_text [10] doc) then 1 else 0)"
    by (simp add: html_findings_of_category(5) [OF a] count_hyphen_text_rules_2
          count_hyphen_table_links count_hyphen_titles)
  finally show "count_list fs msg_hyphen =
        (if \<exists>pre a c post. get_text [10] doc = pre @ [a, 45, c] @ post \<and> isspace a \<and> isspace c
         then 1 else 0)"
    by (simp only: search_hyphen_iff)
next
  have "count_list (check_docx U rank ps) msg_hyphen =
      count_list (filter (\<lambda>f. category f = ascii ''STYLE'') (check_docx U rank ps)) msg_hyphen"
    by (simp add: count_list_filter category_def msg_hyphen_def ascii_def)
  also have "\<dots> = (if search_hyphen (join [10] (map para_text ps)) then 1 else 0)"
    by (simp add: docx_findings_of_category(3) count_hyphen_text_rules_2)
  finally show "count_list (check_docx U rank ps) msg_hyphen =
     (if \<exists>pre a c post. join [10] (map para_text ps) = pre @ [a, 45, c] @ post \<and> isspace a \<and> isspace c
      then 1 else 0)"
    by (simp only: search_hyphen_iff)
qed

lemma doc_hyphen_state:
  "eval_html ascii_db rank0 (init_html doc_hyphen) =
     Inr \<lparr>soup = doc_hyphen, extracted = [97, 10, 45, 10, 98], findings = [msg_date, msg_hyphen]\<rparr>"
  by (simp add: eval_html_def init_html_def append_findings_def doc_hyphen_def rule_defs regex_defs
        string_defs ascii_db_def rank0_def Let_def)

lemma doc_hyphen_eval: "check_html ascii_db rank0 doc_hyphen = Inr [msg_date, msg_hyphen]"
  by (simp add: check_html_def doc_hyphen_state)

lemma doc_hyphen_text: "get_text [10] doc_hyphen = [97, 10, 45, 10, 98]"
  by (simp add: doc_hyphen_def get_text_def ascii_def)

theorem hyphen_rule_witness:
  "check_html ascii_db rank0 doc_hyphen = Inr [msg_date, msg_hyphen] \<and>
   count_list [msg_date, msg_hyphen] msg_hyphen = 1 \<and>
   get_text [10] doc_hyphen = [] @ [97] @ [10, 45, 10] @ [98] \<and> isspace 10"
proof -
  have e: "get_text [10] doc_hyphen = [97] @ [10, 45, 10] @ [98]"
    by (simp add: doc_hyphen_text)
  have s: "isspace 10" by (simp add: isspace_def)
  from e s have "\<exists>pre a c post. get_text [10] doc_hyphen = pre @ [a, 45, c] @ post \<and> isspace a \<and> isspace c"
    by blast
  with hyphen_rule [of ascii_db rank0 doc_hyphen "[msg_date, msg_hyphen]" "[]"] doc_hyphen_eval
  have "count_list [msg_date, msg_hyphen] msg_hyphen = 1" by simp
  with doc_hyphen_eval e s show ?thesis by simp
qed

text \<open>
  The finding is there for a hyphen between two line breaks, where the text has no hyphen
  between two spaces.
\<close>

theorem hyphen_between_line_breaks:
  "check_html ascii_db rank0 doc_hyphen = Inr [msg_date, msg_hyphen] \<and>
   \<not> contains (get_text [10] doc_hyphen) (ascii '' - '')"
  by (simp add: doc_hyphen_eval doc_hyphen_text startswith_def ascii_def)

section \<open>Inputs the command refuses\<close>

text \<open>
  C10. For a path that names a file whose extension, lowercased, is none of .htm, .html
  and .docx, the command prints the one message about the unsupported file type and
  nothing else; for a path that names no file it prints the one message that the file was
  not found. No document is loaded and no rule is evaluated in either case.
\<close>

theorem main_refuses:
  "(isfile p \<and> lower U (snd (splitext p)) \<notin> {ascii ''.htm'', ascii ''.html'', ascii ''.docx''} \<longrightarrow>
      main U rank isfile load_html load_docx [prog, p] = Inr [msg_unsupported]) \<and>
   (\<not> isfile p \<longrightarrow> main U rank isfile load_html load_docx [prog, p] = Inr [msg_not_found])"
  by (simp add: main_def Let_def)

theorem main_refuses_witness:
  "any_file (ascii ''notes.TXT'') \<and>
   lower ascii_db (snd (splitext (ascii ''notes.TXT''))) = ascii ''.txt'' \<and>
   main ascii_db rank0 any_file no_html no_docx [ascii ''govuk_checker.py'', ascii ''notes.TXT''] =
     Inr [msg_unsupported] \<and>
   \<not> no_file (ascii ''page.html'') \<and>
   main ascii_db rank0 no_file no_html no_docx [ascii ''govuk_checker.py'', ascii ''page.html''] =
     Inr [msg_not_found]"
proof -
  have a: "any_file (ascii ''notes.TXT'')" by (simp add: any_file_def)
  have b: "lower ascii_db (snd (splitext (ascii ''notes.TXT''))) = ascii ''.txt''"
    by (simp add: splitext_def rfind_def lower_def lower_char_def ascii_def is_AZ_def ascii_db_def Let_def)
  from b have c: "lower ascii_db (snd (splitext (ascii ''notes.TXT''))) \<notin>
      {ascii ''.htm'', ascii ''.html'', ascii ''.docx''}"
    by (simp add: ascii_eq_iff)
  from main_refuses [of any_file "ascii ''notes.TXT''" ascii_db rank0 no_html no_docx "ascii ''govuk_checker.py''"] a c
  have d: "main ascii_db rank0 any_file no_html no_docx [ascii ''govuk_checker.py'', ascii ''notes.TXT''] =
     Inr [msg_unsupported]" by simp
  have e: "\<not> no_file (ascii ''page.html'')" by (simp add: no_file_def)
  from main_refuses [of no_file "ascii ''page.html''" ascii_db rank0 no_html no_docx "ascii ''govuk_checker.py''"] e
  have "main ascii_db rank0 no_file no_html no_docx [ascii ''govuk_checker.py'', ascii ''page.html''] =
     Inr [msg_not_found]" by simp
  with a b d e show ?thesis by simp
qed

section \<open>A page with a date\<close>









section \<open>The order of the findings\<close>

lemma mset_concat_map: "mset xs = mset ys \<Longrightarrow> mset (concat (map g xs)) = mset (concat (map g ys))"
proof -
  assume a: "mset xs = mset ys"
  have "\<And>l. mset (concat (map g l)) = sum_mset (image_mset (\<lambda>x. mset (g x)) (mset l))"
    by (induct_tac l) simp_all
  with a show ?thesis by simp
qed

lemma mset_rule_acronyms: "mset (rule_acronyms U rank t) = mset (rule_acronyms U rank' t)"
  unfolding rule_acronyms_def by (rule mset_concat_map) (simp add: set_iter_def)

text \<open>
  C9. Two evaluations of a document give the same findings, each as often in one as in the
  other, and in the same order but for the ACRONYM findings: these stand at the same place
  of the list, in the iteration order of a set of strings, which is the same within one
  interpreter and may differ between two.
\<close>

theorem evaluation_repeatable:
  "(\<exists>pre post. \<forall>rank. check_docx U rank ps =
        pre @ rule_acronyms U rank (join [10] (map para_text ps)) @ post) \<and>
   mset (check_docx U rank ps) = mset (check_docx U rank' ps) \<and>
   (check_html U rank doc = Inl e \<longleftrightarrow> check_html U rank' doc = Inl e) \<and>
   (check_html U rank doc = Inr fs \<and> check_html U rank' doc = Inr fs' \<longrightarrow>
      mset fs = mset fs' \<and>
      (\<exists>pre post. fs = pre @ rule_acronyms U rank (get_text [10] doc) @ post \<and>
                  fs' = pre @ rule_acronyms U rank' (get_text [10] doc) @ post))"
proof (intro conjI impI)
  show "\<exists>pre post. \<forall>rank. check_docx U rank ps =
        pre @ rule_acronyms U rank (join [10] (map para_text ps)) @ post"
    unfolding check_docx_unfold
    by (metis append.assoc)
  show "mset (check_docx U rank ps) = mset (check_docx U rank' ps)"
    by (simp add: check_docx_unfold mset_rule_acronyms [of U rank _ rank'])
  show "check_html U rank doc = Inl e \<longleftrightarrow> check_html U rank' doc = Inl e"
    by (simp add: check_html_unfold split: sum.splits)
next
  assume a: "check_html U rank doc = Inr fs \<and> check_html U rank' doc = Inr fs'"
  then obtain bs where b: "bullets_html U (bullet_points doc) = Inr bs"
    by (auto simp: check_html_unfold split: sum.splits)
  define pre where "pre = bs @ rule_lead_in doc @ text_rules_1 U (get_text [10] doc) @ rule_links U doc @
          rule_images doc (get_text [10] doc) @ rule_cells doc @ rule_emphasis doc"
  define post where "post = text_rules_2 U (get_text [10] doc) @ rule_table_links doc @ rule_titles U doc"
  from a b have fs: "fs = pre @ rule_acronyms U rank (get_text [10] doc) @ post"
    and fs': "fs' = pre @ rule_acronyms U rank' (get_text [10] doc) @ post"
    by (auto simp: check_html_unfold pre_def post_def)
  show "mset fs = mset fs'"
    by (simp add: fs fs' mset_rule_acronyms [of U rank _ rank'])
  from fs fs' show "\<exists>pre post. fs = pre @ rule_acronyms U rank (get_text [10] doc) @ post \<and>
                  fs' = pre @ rule_acronyms U rank' (get_text [10] doc) @ post"
    by blast
qed

lemma doc_two_acronyms_text: "join [10] (map para_text doc_two_acronyms) = ascii ''AB CD''"
  by (simp add: doc_two_acronyms_def)

lemma doc_two_acronyms_found: "acronyms U (ascii ''AB CD'') = [ascii ''AB'', ascii ''CD'']"
  by (simp add: acronyms_def acronym_at_def string_defs)

lemma doc_two_acronyms_expansion:
  "\<not> search_expansion U (ascii ''AB'') None (ascii ''AB CD'')"
  "\<not> search_expansion U (ascii ''CD'') None (ascii ''AB CD'')"
  by (simp_all add: expansion_at_def string_defs)

lemma doc_two_acronyms_rank0:
  "rule_acronyms U rank0 (ascii ''AB CD'') = [msg_acronym (ascii ''AB''), msg_acronym (ascii ''CD'')]"
  by (simp add: rule_acronyms_def doc_two_acronyms_found doc_two_acronyms_expansion set_iter_def
        rank0_def ascii_eq_iff)

lemma doc_two_acronyms_rank_ab_last:
  "rule_acronyms U rank_ab_last (ascii ''AB CD'') = [msg_acronym (ascii ''CD''), msg_acronym (ascii ''AB'')]"
  by (simp add: rule_acronyms_def doc_two_acronyms_found doc_two_acronyms_expansion set_iter_def
        rank_ab_last_def ascii_eq_iff)

lemma doc_two_acronyms_rest:
  "rule_bullets_docx ascii_db doc_two_acronyms = []" "rule_runs doc_two_acronyms = []"
  "text_rules_1 ascii_db (ascii ''AB CD'') = []" "text_rules_2 ascii_db (ascii ''AB CD'') = [msg_date]"
  by (simp_all add: rule_bullets_docx_def bullet_docx_def rule_runs_def doc_two_acronyms_def
        rule_defs regex_defs string_defs ascii_db_def)

lemma doc_two_acronyms_eval:
  "check_docx ascii_db rank0 doc_two_acronyms =
     [msg_acronym (ascii ''AB''), msg_acronym (ascii ''CD''), msg_date]"
  "check_docx ascii_db rank_ab_last doc_two_acronyms =
     [msg_acronym (ascii ''CD''), msg_acronym (ascii ''AB''), msg_date]"
  by (simp_all add: check_docx_unfold doc_two_acronyms_text doc_two_acronyms_rest
        doc_two_acronyms_rank0 doc_two_acronyms_rank_ab_last)

text \<open>Two iteration orders of the set of acronyms give two different finding lists.\<close>

theorem acronym_order_differs:
  "check_docx ascii_db rank0 doc_two_acronyms \<noteq> check_docx ascii_db rank_ab_last doc_two_acronyms"
  by (simp add: doc_two_acronyms_eval msg_acronym_def quoted_def ascii_def)

lemma page_two_acronyms_eval:
  "check_html ascii_db rank0 page_two_acronyms =
     Inr [msg_acronym (ascii ''AB''), msg_acronym (ascii ''CD''), msg_date]"
  "check_html ascii_db rank_ab_last page_two_acronyms =
     Inr [msg_acronym (ascii ''CD''), msg_acronym (ascii ''AB''), msg_date]"
proof -
  have t: "get_text [10] page_two_acronyms = ascii ''AB CD''"
    by (simp add: page_two_acronyms_def get_text_def)
  have r: "bullets_html ascii_db (bullet_points page_two_acronyms) = Inr []"
    "rule_lead_in page_two_acronyms = []" "rule_links ascii_db page_two_acronyms = []"
    "rule_images page_two_acronyms (ascii ''AB CD'') = []" "rule_cells page_two_acronyms = []"
    "rule_emphasis page_two_acronyms = []" "rule_table_links page_two_acronyms = []"
    "rule_titles ascii_db page_two_acronyms = []"
    by (simp_all add: page_two_acronyms_def bullet_points_def find_all_def rule_lead_in_def
          rule_links_def rule_images_def rule_cells_def rule_emphasis_def rule_table_links_def
          rule_titles_def)
  show "check_html ascii_db rank0 page_two_acronyms =
     Inr [msg_acronym (ascii ''AB''), msg_acronym (ascii ''CD''), msg_date]"
    by (simp add: check_html_unfold t r doc_two_acronyms_rest doc_two_acronyms_rank0)
  show "check_html ascii_db rank_ab_last page_two_acronyms =
     Inr [msg_acronym (ascii ''CD''), msg_acronym (ascii ''AB''), msg_date]"
    by (simp add: check_html_unfold t r doc_two_acronyms_rest doc_two_acronyms_rank_ab_last)
qed

theorem evaluation_repeatable_witness:
  "check_html ascii_db rank0 page_two_acronyms =
     Inr [msg_acronym (ascii ''AB''), msg_acronym (ascii ''CD''), msg_date] \<and>
   check_html ascii_db rank_ab_last page_two_acronyms =
     Inr [msg_acronym (ascii ''CD''), msg_acronym (ascii ''AB''), msg_date] \<and>
   mset [msg_acronym (ascii ''AB''), msg_acronym (ascii ''CD''), msg_date] =
     mset [msg_acronym (ascii ''CD''), msg_acronym (ascii ''AB''), msg_date] \<and>
   mset (check_docx ascii_db rank0 doc_two_acronyms) =
     mset (check_docx ascii_db rank_ab_last doc_two_acronyms)"
  using evaluation_repeatable [of ascii_db doc_two_acronyms rank0 rank_ab_last page_two_acronyms
      IndexError "[msg_acronym (ascii ''AB''), msg_acronym (ascii ''CD''), msg_date]"
      "[msg_acronym (ascii ''CD''), msg_acronym (ascii ''AB''), msg_date]"]
  by (simp add: page_two_acronyms_eval)

section \<open>Words in a text\<close>







section \<open>The string before a list\<close>







section \<open>The end-to-end example\<close>










end
